theory Spec2Isabelle
  imports Main "HOL-Library.Multiset"
begin

section \<open>Strings\<close>

text \<open>The newline character of the JavaScript literal \<^verbatim>\<open>"\n"\<close>.\<close>

definition NL :: string where
  "NL = [CHR 0x0A]"

text \<open>\<^verbatim>\<open>Array.prototype.join\<close> on an array of strings.\<close>

fun join :: "string \<Rightarrow> string list \<Rightarrow> string" where
  "join sep [] = []"
| "join sep [x] = x"
| "join sep (x # y # ys) = x @ sep @ join sep (y # ys)"

text \<open>\<^verbatim>\<open>x ?? ""\<close> on an optional string.\<close>

definition orEmpty :: "string option \<Rightarrow> string" where
  "orEmpty f = (case f of None \<Rightarrow> [] | Some s \<Rightarrow> s)"

text \<open>\<^verbatim>\<open>Array.from(new Set(xs))\<close>: the first occurrence of every element, in order.\<close>

definition uniq :: "'a list \<Rightarrow> 'a list" where
  "uniq xs = rev (remdups (rev xs))"

section \<open>The engine's live tree\<close>

text \<open>
  \<^verbatim>\<open>Mocha.Test\<close> and \<^verbatim>\<open>Mocha.Suite\<close>, with the fields the runner reads. \<^verbatim>\<open>title\<close> is a
  string. \<^verbatim>\<open>file\<close> is optional in Mocha (the runner reads it as \<^verbatim>\<open>file ?? ""\<close>). \<^verbatim>\<open>filterSpecs\<close> guards both
  \<^verbatim>\<open>suite.tests\<close> and \<^verbatim>\<open>suite.suites\<close> against being undefined, so both are optional
  here; an array, even an empty one, is truthy. The \<^verbatim>\<open>parent\<close> back-pointers are not
  stored: the functions below carry the chain of ancestor titles instead.
\<close>

datatype mocha_test = MochaTest (test_title: string) (test_file: "string option")

datatype mocha_suite =
  MochaSuite (suite_title: string) (suite_file: "string option")
    (suite_tests: "mocha_test list option") (suite_suites: "mocha_suite list option")

text \<open>
  Modelled from the spec: \<^verbatim>\<open>TestStatus\<close> is an enumeration of the core package, which is
  absent; the runner itself names only \<^verbatim>\<open>TestStatus.BlockListed\<close>.
\<close>

datatype test_status = Passed | Failed | Skipped | BlockListed

text \<open>The error of iterating a value that is not iterable, and how a call ends.\<close>

datatype error = TypeError

datatype outcome = Returned | Thrown error

section \<open>Collaborators outside the runner\<close>

text \<open>
  The runner calls into \<^verbatim>\<open>Util\<close> of the core package, Node's \<^verbatim>\<open>crypto\<close>, \<^verbatim>\<open>path\<close> and
  \<^verbatim>\<open>fast-glob\<close>, the process environment and Mocha itself. None of them is part of
  \<^verbatim>\<open>mocha-runner.ts\<close>; every function below takes them as one record of parameters, and
  every theorem holds for all of them unless it says otherwise. \<open>'l\<close> is the type of
  \<^verbatim>\<open>Locator\<close> objects.

  \<^item> \<open>md5hex\<close> is \<^verbatim>\<open>crypto.createHash("md5").update(s).digest("hex")\<close>;
  \<^item> \<open>pathRelative\<close> is \<^verbatim>\<open>path.relative(Util.REPO_ROOT, filename)\<close>;
  \<^item> \<open>globSync\<close> is \<^verbatim>\<open>glob.sync(g).map(file => path.resolve(file))\<close>;
  \<^item> \<open>mochaLoad\<close> is the root suite Mocha holds once the added files are loaded;
  \<^item> \<open>mochaRun\<close> is the original \<^verbatim>\<open>Mocha.Runner.prototype.run\<close> on the filtered root
    suite, read through the reporter as \<^verbatim>\<open>testResults\<close> and \<^verbatim>\<open>testSuiteResults\<close>
    (either may be undefined);
  \<^item> \<open>handleDuplicateTests\<close> is \<^verbatim>\<open>Util.handleDuplicateTests\<close>, which works in place on the
    result objects: what it returns here is the array after the call. What it does to
    the objects that \<^verbatim>\<open>_blocklistedTests\<close> shares with that array is not followed.
\<close>

text \<open>
  Modelled from the spec: \<^verbatim>\<open>TestResult\<close> and \<^verbatim>\<open>TestSuiteResult\<close> are classes of the core
  package, which is absent. A result carries the identity of its node (title and
  locator) and a status; the timestamp and the duration are left out.
\<close>

record 'l test_result =
  tr_title :: string
  tr_locator :: 'l
  tr_status :: test_status

record 'l suite_result =
  sr_title :: string
  sr_locator :: 'l
  sr_status :: test_status

record 'l deps =
  REPO_ID :: string
  COMMIT_ID :: string
  getIdentifier :: "string \<Rightarrow> string \<Rightarrow> string"
  getLocator :: "string \<Rightarrow> string list \<Rightarrow> string \<Rightarrow> 'l"
  locatorToString :: "'l \<Rightarrow> string"
  isBlocklistedLocator :: "'l \<Rightarrow> bool"
  md5hex :: "string \<Rightarrow> string"
  pathRelative :: "string \<Rightarrow> string"
  globSync :: "string list \<Rightarrow> string list"
  getFilesFromTestLocators :: "string set \<Rightarrow> string list"
  mochaLoad :: "string list \<Rightarrow> mocha_suite"
  mochaRun :: "mocha_suite \<Rightarrow> 'l test_result list option \<times> 'l suite_result list option"
  handleDuplicateTests :: "'l test_result list \<Rightarrow> 'l test_result list"
  filterTestResultsByTestLocator ::
    "'l test_result list \<Rightarrow> string set \<Rightarrow> string set \<Rightarrow> 'l test_result list"

text \<open>
  The locator of a test and of a suite as \<^verbatim>\<open>filterSpecs\<close> computes it (lines 256 to 260
  and 292 to 296): \<^verbatim>\<open>Util.getLocator\<close> of the file, of the titles of the ancestors from
  the root down, and of the title.
\<close>

definition testLocator :: "'l deps \<Rightarrow> string list \<Rightarrow> mocha_test \<Rightarrow> 'l" where
  "testLocator D parentSuites test =
     getLocator D (orEmpty (test_file test)) parentSuites (test_title test)"

definition suiteLocator :: "'l deps \<Rightarrow> string list \<Rightarrow> mocha_suite \<Rightarrow> 'l" where
  "suiteLocator D parentSuites suite =
     getLocator D (orEmpty (suite_file suite)) parentSuites (suite_title suite)"

text \<open>
  Modelled from the spec: \<^verbatim>\<open>MochaHelper.transformMochaTestAsTestResult\<close> and
  \<^verbatim>\<open>MochaHelper.transformMochaSuiteAsSuiteResult\<close> are in \<^verbatim>\<open>./helper\<close>, which is absent.
  The result of a node has the node's title, the node's locator and the status given;
  the date (\<^verbatim>\<open>new Date()\<close>) is left out.
\<close>

definition transformMochaTestAsTestResult ::
  "'l deps \<Rightarrow> string list \<Rightarrow> mocha_test \<Rightarrow> test_status \<Rightarrow> 'l test_result" where
  "transformMochaTestAsTestResult D parentSuites test st =
     \<lparr>tr_title = test_title test, tr_locator = testLocator D parentSuites test, tr_status = st\<rparr>"

definition transformMochaSuiteAsSuiteResult ::
  "'l deps \<Rightarrow> string list \<Rightarrow> mocha_suite \<Rightarrow> test_status \<Rightarrow> 'l suite_result" where
  "transformMochaSuiteAsSuiteResult D parentSuites suite st =
     \<lparr>sr_title = suite_title suite, sr_locator = suiteLocator D parentSuites suite, sr_status = st\<rparr>"

section \<open>The runner's fields\<close>

text \<open>
  The four private fields of \<^verbatim>\<open>MochaRunner\<close> (lines 32 to 35), and their initial values.
\<close>

record 'l runner =
  blocklistedTests :: "'l test_result list"
  blockListedLocators :: "string set"
  blocklistedSuites :: "'l suite_result list"
  testlocator :: "string set"

definition newMochaRunner :: "'l runner" where
  "newMochaRunner =
     \<lparr>blocklistedTests = [], blockListedLocators = {}, blocklistedSuites = [], testlocator = {}\<rparr>"

section \<open>\<^verbatim>\<open>filterSpecs\<close>\<close>

text \<open>
  The two statements of lines 273 to 274 and 281 to 282.
\<close>

definition recordBlocklistedTest :: "'l deps \<Rightarrow> 'l test_result \<Rightarrow> 'l runner \<Rightarrow> 'l runner" where
  "recordBlocklistedTest D testResult R =
     R\<lparr>blockListedLocators :=
         insert (locatorToString D (tr_locator testResult)) (blockListedLocators R),
       blocklistedTests := blocklistedTests R @ [testResult]\<rparr>"

text \<open>
  Modelled from the spec: \<^verbatim>\<open>MochaHelper.getParentSuites\<close> is in \<^verbatim>\<open>./helper\<close>, which is
  absent. It follows the \<^verbatim>\<open>parent\<close> pointers of a node; reversed, what it collects is the
  ordered ancestor titles of the locator, the same chain the discovery walk gives to
  \<^verbatim>\<open>Util.getLocator\<close>. The functions below take that chain as \<open>parentSuites\<close>: it is the
  same for all members of a suite, and the members of a child suite have the child's
  title appended.
\<close>

text \<open>
  The body of the loop over \<^verbatim>\<open>suite.tests\<close> (lines 256 to 286), on the pair of
  \<^verbatim>\<open>filteredTests\<close> and the runner's fields.
\<close>

definition filterSpecs_test ::
  "'l deps \<Rightarrow> string list \<Rightarrow> mocha_test list \<times> 'l runner \<Rightarrow> mocha_test \<Rightarrow>
   mocha_test list \<times> 'l runner" where
  "filterSpecs_test D parentSuites acc test =
     (let filteredTests = fst acc; R = snd acc;
          filename = orEmpty (test_file test);
          locator = getLocator D filename parentSuites (test_title test);
          blockListed = isBlocklistedLocator D locator;
          testResult = transformMochaTestAsTestResult D parentSuites test BlockListed
      in if testlocator R \<noteq> {} then
           (if locatorToString D locator \<in> testlocator R then
              (if \<not> blockListed then (filteredTests @ [test], R)
               else (filteredTests, recordBlocklistedTest D testResult R))
            else (filteredTests, R))
         else
           (if blockListed then (filteredTests, recordBlocklistedTest D testResult R)
            else (filteredTests @ [test], R)))"

definition filterSpecs_tests ::
  "'l deps \<Rightarrow> string list \<Rightarrow> mocha_test list \<Rightarrow> 'l runner \<Rightarrow> mocha_test list \<times> 'l runner" where
  "filterSpecs_tests D parentSuites suiteTests R =
     foldl (filterSpecs_test D parentSuites) ([], R) suiteTests"

text \<open>
  \<^verbatim>\<open>filterSpecs\<close> (lines 252 to 308) returns the suite as mutated and the runner's fields.
  \<open>filterSpecs_suites\<close> is its loop over \<^verbatim>\<open>suite.suites\<close>: a child whose locator is
  blocklisted gets a record (lines 297 to 304), and \<^verbatim>\<open>filterSpecs\<close> is called on every
  child (line 305).
\<close>

fun filterSpecs ::
    "'l deps \<Rightarrow> string list \<Rightarrow> mocha_suite \<Rightarrow> 'l runner \<Rightarrow> mocha_suite \<times> 'l runner"
  and filterSpecs_suites ::
    "'l deps \<Rightarrow> string list \<Rightarrow> mocha_suite list \<Rightarrow> 'l runner \<Rightarrow> mocha_suite list \<times> 'l runner"
where
  "filterSpecs D parentSuites (MochaSuite ttl fl ts ss) R =
     (let (ts', R1) =
            (case ts of
               None \<Rightarrow> (None, R)
             | Some suiteTests \<Rightarrow>
                 (let (filteredTests, R') = filterSpecs_tests D parentSuites suiteTests R
                  in (Some filteredTests, R')));
          (ss', R2) =
            (case ss of
               None \<Rightarrow> (None, R1)
             | Some children \<Rightarrow>
                 (let (children', R') = filterSpecs_suites D parentSuites children R1
                  in (Some children', R')))
      in (MochaSuite ttl fl ts' ss', R2))"
| "filterSpecs_suites D parentSuites [] R = ([], R)"
| "filterSpecs_suites D parentSuites (childSuite # rest) R =
     (let filename = orEmpty (suite_file childSuite);
          locator = getLocator D filename parentSuites (suite_title childSuite);
          R1 = (if isBlocklistedLocator D locator
                then R\<lparr>blocklistedSuites := blocklistedSuites R @
                        [transformMochaSuiteAsSuiteResult D parentSuites childSuite BlockListed]\<rparr>
                else R);
          (childSuite', R2) = filterSpecs D (parentSuites @ [suite_title childSuite]) childSuite R1;
          (rest', R3) = filterSpecs_suites D parentSuites rest R2
      in (childSuite' # rest', R3))"

section \<open>\<^verbatim>\<open>execute\<close> and \<^verbatim>\<open>executeTests\<close>\<close>

record 'l execution_result =
  testResults :: "'l test_result list"
  testSuiteResults :: "'l suite_result list"

text \<open>
  \<^verbatim>\<open>extendNativeRunner\<close> (lines 240 to 250) replaces \<^verbatim>\<open>Mocha.Runner.prototype.run\<close> by
  a function that calls \<^verbatim>\<open>filterSpecs\<close> on the root suite and then the function it
  replaced. The prototype belongs to the Mocha module, not to the \<^verbatim>\<open>Mocha\<close> instance
  \<^verbatim>\<open>execute\<close> creates, so a replacement made by one call of \<^verbatim>\<open>execute\<close> is still in
  place at the next: after \<open>n\<close> calls, \<^verbatim>\<open>run\<close> is \<open>n\<close> calls of \<^verbatim>\<open>filterSpecs\<close>
  followed by Mocha's own \<^verbatim>\<open>run\<close>. The state of the process is therefore the runner's
  fields (the one runner of line 337, to which every wrapper is bound) and the number
  of wrappers around \<^verbatim>\<open>run\<close>.
\<close>

record 'l process =
  theRunner :: "'l runner"
  runWrappers :: nat

definition newProcess :: "'l process" where
  "newProcess = \<lparr>theRunner = newMochaRunner, runWrappers = 0\<rparr>"

text \<open>
  The calls of \<^verbatim>\<open>filterSpecs\<close> that \<open>n\<close> wrappers make before Mocha's own \<^verbatim>\<open>run\<close>. The
  members of the root suite have no ancestor titles, as in the discovery walk.
\<close>

fun wrappedFilterSpecs ::
  "'l deps \<Rightarrow> nat \<Rightarrow> mocha_suite \<Rightarrow> 'l runner \<Rightarrow> mocha_suite \<times> 'l runner" where
  "wrappedFilterSpecs D 0 suite R = (suite, R)"
| "wrappedFilterSpecs D (Suc n) suite R =
     (let (suite', R') = filterSpecs D [] suite R in wrappedFilterSpecs D n suite' R')"

text \<open>\<^verbatim>\<open>execute\<close> (lines 100 to 140).\<close>

definition execute ::
  "'l deps \<Rightarrow> string list \<Rightarrow> string list \<Rightarrow> 'l process \<Rightarrow> 'l execution_result \<times> 'l process" where
  "execute D testFilesGlob locators P =
     (let R1 = (theRunner P)\<lparr>testlocator := set locators\<rparr>;
          wrappers = Suc (runWrappers P);
          testFilesToProcessList =
            (if testlocator R1 = {} then uniq (globSync D testFilesGlob)
             else getFilesFromTestLocators D (testlocator R1));
          (suite, R2) = wrappedFilterSpecs D wrappers (mochaLoad D testFilesToProcessList) R1;
          (tr, sr) = mochaRun D suite;
          results_testResults = (case tr of None \<Rightarrow> [] | Some xs \<Rightarrow> xs) @ blocklistedTests R2;
          results_testSuiteResults = (case sr of None \<Rightarrow> [] | Some xs \<Rightarrow> xs) @ blocklistedSuites R2;
          deduplicated = handleDuplicateTests D results_testResults
      in (\<lparr>testResults =
             (if testlocator R2 \<noteq> {}
              then filterTestResultsByTestLocator D deduplicated (testlocator R2) (blockListedLocators R2)
              else deduplicated),
           testSuiteResults = results_testSuiteResults\<rparr>,
          \<lparr>theRunner = R2, runWrappers = wrappers\<rparr>))"

text \<open>
  One entry of \<^verbatim>\<open>Util.createLocatorSet\<close>: the locators of a group and how often to run
  them, an integer.
\<close>

record locator_set =
  locators :: "string list"
  numberofexecutions :: int

text \<open>
  The inner loop of \<^verbatim>\<open>executeTests\<close> (lines 165 to 168), from counter \<open>i\<close> on.
  Modelled from the spec: \<^verbatim>\<open>ExecutionResults\<close> is a class of the core package, which is
  absent; the report is the ordered sequence of the results pushed.
\<close>

function executeTests_repeat ::
  "'l deps \<Rightarrow> string list \<Rightarrow> locator_set \<Rightarrow> int \<Rightarrow> 'l execution_result list \<times> 'l process \<Rightarrow>
   'l execution_result list \<times> 'l process" where
  "executeTests_repeat D testFilesGlob s i acc =
     (if i \<le> numberofexecutions s then
        (let (result, P') = execute D testFilesGlob (locators s) (snd acc)
         in executeTests_repeat D testFilesGlob s (i + 1) (fst acc @ [result], P'))
      else acc)"
  by pat_completeness auto
termination
  by (relation "measure (\<lambda>(D, g, s, i, acc). nat (numberofexecutions s + 1 - i))") auto

fun executeTests_sets ::
  "'l deps \<Rightarrow> string list \<Rightarrow> locator_set list \<Rightarrow> 'l execution_result list \<times> 'l process \<Rightarrow>
   'l execution_result list \<times> 'l process" where
  "executeTests_sets D testFilesGlob [] acc = acc"
| "executeTests_sets D testFilesGlob (s # rest) acc =
     executeTests_sets D testFilesGlob rest (executeTests_repeat D testFilesGlob s 1 acc)"

text \<open>
  \<^verbatim>\<open>executeTests\<close> (lines 142 to 180): \<open>locatorSet\<close> is \<open>None\<close> when no locator file is
  given. The report is posted afterwards, which changes neither it nor the state.
\<close>

definition executeTests ::
  "'l deps \<Rightarrow> string list \<Rightarrow> locator_set list option \<Rightarrow> 'l process \<Rightarrow>
   'l execution_result list \<times> 'l process" where
  "executeTests D testFilesGlob locatorSet P =
     (case locatorSet of
        Some sets \<Rightarrow> executeTests_sets D testFilesGlob sets ([], P)
      | None \<Rightarrow>
          (let (result, P') = execute D testFilesGlob [] P in ([result], P')))"

section \<open>\<^verbatim>\<open>listTestsAndTestSuites\<close>\<close>

text \<open>
  The \<^verbatim>\<open>TestSuite\<close> and \<^verbatim>\<open>Test\<close> objects of the core package, by the arguments the
  runner passes to their constructors.
\<close>

record suite_node =
  s_id :: string
  s_name :: string
  s_parentId :: "string option"

record 'l test_node =
  t_id :: string
  t_name :: string
  t_title :: string
  t_suiteId :: "string option"
  t_commitId :: string
  t_filePath :: string
  t_locator :: 'l

text \<open>
  The three arrays the walk mutates: \<^verbatim>\<open>tests\<close>, \<^verbatim>\<open>testSuites\<close> and the stack
  \<^verbatim>\<open>ancestorTitles\<close>. They are shared objects, so their contents remain as they are when
  an error leaves the walk; the walk returns them with its outcome. The fourth field is
  not a variable of the program: it is the history of the pushes on \<^verbatim>\<open>tests\<close> and
  \<^verbatim>\<open>testSuites\<close>, in the order in which they happen, which the two arrays alone do not
  keep.
\<close>

datatype 'l emission = SuiteEmitted suite_node | TestEmitted "'l test_node"

record 'l walk =
  tests :: "'l test_node list"
  testSuites :: "suite_node list"
  ancestorTitles :: "string list"
  emitted :: "'l emission list"

text \<open>The string given to the digest for a chain of qualified names (lines 200, 206, 229).\<close>

definition chainInput :: "'l deps \<Rightarrow> string list \<Rightarrow> string" where
  "chainInput D suiteIdentifiers = REPO_ID D @ NL @ join NL suiteIdentifiers"

text \<open>The string given to the digest for a test (line 222).\<close>

definition testInput :: "'l deps \<Rightarrow> string list \<Rightarrow> string \<Rightarrow> string" where
  "testInput D suiteIdentifiers testIdentifier =
     REPO_ID D @ NL @ join NL suiteIdentifiers @ NL @ testIdentifier"

text \<open>
  The \<^verbatim>\<open>TestSuite\<close> built for a child suite (lines 192 to 209); \<open>titles\<close> is the stack
  after the child's title is pushed.
\<close>

definition newTestSuite :: "'l deps \<Rightarrow> string list \<Rightarrow> mocha_suite \<Rightarrow> suite_node" where
  "newTestSuite D titles childSuite =
     (let filename = orEmpty (suite_file childSuite);
          suiteIdentifier = getIdentifier D filename (suite_title childSuite);
          suiteIdentifiers = map (getIdentifier D filename) titles;
          parentSuiteIdentifiers = butlast suiteIdentifiers
      in \<lparr>s_id = md5hex D (chainInput D suiteIdentifiers),
          s_name = suiteIdentifier,
          s_parentId =
            (if length parentSuiteIdentifiers > 0
             then Some (md5hex D (chainInput D parentSuiteIdentifiers)) else None)\<rparr>)"

text \<open>The \<^verbatim>\<open>Test\<close> built for a test (lines 216 to 235).\<close>

definition newTest :: "'l deps \<Rightarrow> string list \<Rightarrow> mocha_test \<Rightarrow> 'l test_node" where
  "newTest D titles mochaTest =
     (let filename = orEmpty (test_file mochaTest);
          testIdentifier = getIdentifier D filename (test_title mochaTest);
          suiteIdentifiers = map (getIdentifier D filename) titles
      in \<lparr>t_id = md5hex D (testInput D suiteIdentifiers testIdentifier),
          t_name = testIdentifier,
          t_title = test_title mochaTest,
          t_suiteId =
            (if length suiteIdentifiers > 0
             then Some (md5hex D (chainInput D suiteIdentifiers)) else None),
          t_commitId = COMMIT_ID D,
          t_filePath = pathRelative D filename,
          t_locator = getLocator D filename titles (test_title mochaTest)\<rparr>)"

text \<open>Lines 216 to 236: one round of the loop over \<^verbatim>\<open>currentSuite.tests\<close>.\<close>

definition pushTest :: "'l deps \<Rightarrow> 'l walk \<Rightarrow> mocha_test \<Rightarrow> 'l walk" where
  "pushTest D W mochaTest =
     W\<lparr>tests := tests W @ [newTest D (ancestorTitles W) mochaTest],
       emitted := emitted W @ [TestEmitted (newTest D (ancestorTitles W) mochaTest)]\<rparr>"

text \<open>
  Lines 192 to 210: the child's title is pushed on the stack, and its \<^verbatim>\<open>TestSuite\<close> on
  \<^verbatim>\<open>testSuites\<close>.
\<close>

definition pushTestSuite :: "'l deps \<Rightarrow> 'l walk \<Rightarrow> mocha_suite \<Rightarrow> 'l walk" where
  "pushTestSuite D W childSuite =
     (let W1 = W\<lparr>ancestorTitles := ancestorTitles W @ [suite_title childSuite]\<rparr>
      in W1\<lparr>testSuites := testSuites W1 @ [newTestSuite D (ancestorTitles W1) childSuite],
            emitted := emitted W1 @ [SuiteEmitted (newTestSuite D (ancestorTitles W1) childSuite)]\<rparr>)"

text \<open>
  \<^verbatim>\<open>listTestsAndTestSuites\<close> (lines 182 to 238); \<open>listChildSuites\<close> is its loop over
  \<^verbatim>\<open>currentSuite.suites\<close>. Iterating an undefined \<^verbatim>\<open>suites\<close> or \<^verbatim>\<open>tests\<close> throws a
  \<^verbatim>\<open>TypeError\<close>; nothing in the walk catches it, so the \<^verbatim>\<open>pop\<close> of line 212 is
  reached only when the recursive call returns. \<^verbatim>\<open>pop\<close> on an empty array does nothing.
\<close>

fun listTestsAndTestSuites :: "'l deps \<Rightarrow> mocha_suite \<Rightarrow> 'l walk \<Rightarrow> outcome \<times> 'l walk"
  and listChildSuites :: "'l deps \<Rightarrow> mocha_suite list \<Rightarrow> 'l walk \<Rightarrow> outcome \<times> 'l walk"
where
  "listTestsAndTestSuites D (MochaSuite ttl fl ts ss) W =
     (case ss of
        None \<Rightarrow> (Thrown TypeError, W)
      | Some children \<Rightarrow>
          (case listChildSuites D children W of
             (Thrown e, W1) \<Rightarrow> (Thrown e, W1)
           | (Returned, W1) \<Rightarrow>
               (case ts of
                  None \<Rightarrow> (Thrown TypeError, W1)
                | Some mochaTests \<Rightarrow> (Returned, foldl (pushTest D) W1 mochaTests))))"
| "listChildSuites D [] W = (Returned, W)"
| "listChildSuites D (childSuite # rest) W =
     (case listTestsAndTestSuites D childSuite (pushTestSuite D W childSuite) of
        (Thrown e, W3) \<Rightarrow> (Thrown e, W3)
      | (Returned, W3) \<Rightarrow>
          listChildSuites D rest (W3\<lparr>ancestorTitles := butlast (ancestorTitles W3)\<rparr>))"

text \<open>
  The call of \<^verbatim>\<open>discoverTests\<close> (lines 53, 54 and 81): empty arrays, and the default
  empty stack.
\<close>

definition emptyWalk :: "'l walk" where
  "emptyWalk = \<lparr>tests = [], testSuites = [], ancestorTitles = [], emitted = []\<rparr>"

definition discover :: "'l deps \<Rightarrow> mocha_suite \<Rightarrow> outcome \<times> 'l walk" where
  "discover D rootSuite = listTestsAndTestSuites D rootSuite emptyWalk"

section \<open>Vocabulary of the statements\<close>

text \<open>
  The definitions of this section are not part of the runner: they name what the
  theorems below say about it.
\<close>

text \<open>
  The branch of lines 267 to 286 a test takes, by the set \<open>L\<close> of \<^verbatim>\<open>_testlocator\<close>:
  pushed on \<^verbatim>\<open>filteredTests\<close>, recorded in \<^verbatim>\<open>_blocklistedTests\<close>, or neither.
\<close>

datatype disposition = Include | RecordBlockListed | Excluded

definition disposition :: "'l deps \<Rightarrow> string set \<Rightarrow> string list \<Rightarrow> mocha_test \<Rightarrow> disposition" where
  "disposition D L parentSuites test =
     (if L \<noteq> {} then
        (if locatorToString D (testLocator D parentSuites test) \<in> L then
           (if \<not> isBlocklistedLocator D (testLocator D parentSuites test) then Include
            else RecordBlockListed)
         else Excluded)
      else
        (if isBlocklistedLocator D (testLocator D parentSuites test) then RecordBlockListed
         else Include))"

definition keepP :: "'l deps \<Rightarrow> string set \<Rightarrow> string list \<times> mocha_test \<Rightarrow> bool" where
  "keepP D L x = (disposition D L (fst x) (snd x) = Include)"

definition recP :: "'l deps \<Rightarrow> string set \<Rightarrow> string list \<times> mocha_test \<Rightarrow> bool" where
  "recP D L x = (disposition D L (fst x) (snd x) = RecordBlockListed)"

definition dropP :: "'l deps \<Rightarrow> string set \<Rightarrow> string list \<times> mocha_test \<Rightarrow> bool" where
  "dropP D L x = (disposition D L (fst x) (snd x) = Excluded)"

text \<open>The records \<^verbatim>\<open>filterSpecs\<close> makes of a test and of a suite.\<close>

definition mkT :: "'l deps \<Rightarrow> string list \<times> mocha_test \<Rightarrow> 'l test_result" where
  "mkT D x = transformMochaTestAsTestResult D (fst x) (snd x) BlockListed"

definition mkS :: "'l deps \<Rightarrow> string list \<times> mocha_suite \<Rightarrow> 'l suite_result" where
  "mkS D x = transformMochaSuiteAsSuiteResult D (fst x) (snd x) BlockListed"

definition blkS :: "'l deps \<Rightarrow> string list \<times> mocha_suite \<Rightarrow> bool" where
  "blkS D x = isBlocklistedLocator D (suiteLocator D (fst x) (snd x))"

text \<open>
  The tests of a tree, each with the titles of its ancestors, in the order
  \<^verbatim>\<open>filterSpecs\<close> meets them: the tests of a suite, then its child suites in turn.
\<close>

fun allTests :: "string list \<Rightarrow> mocha_suite \<Rightarrow> (string list \<times> mocha_test) list"
  and allTests_suites :: "string list \<Rightarrow> mocha_suite list \<Rightarrow> (string list \<times> mocha_test) list"
where
  "allTests parentSuites (MochaSuite ttl fl ts ss) =
     (case ts of None \<Rightarrow> [] | Some mochaTests \<Rightarrow> map (Pair parentSuites) mochaTests) @
     (case ss of None \<Rightarrow> [] | Some children \<Rightarrow> allTests_suites parentSuites children)"
| "allTests_suites parentSuites [] = []"
| "allTests_suites parentSuites (childSuite # rest) =
     allTests (parentSuites @ [suite_title childSuite]) childSuite @
     allTests_suites parentSuites rest"

text \<open>
  The same tests in the order the discovery walk meets them: the child suites in turn,
  then the tests of the suite.
\<close>

fun walkTests :: "string list \<Rightarrow> mocha_suite \<Rightarrow> (string list \<times> mocha_test) list"
  and walkTests_suites :: "string list \<Rightarrow> mocha_suite list \<Rightarrow> (string list \<times> mocha_test) list"
where
  "walkTests parentSuites (MochaSuite ttl fl ts ss) =
     (case ss of None \<Rightarrow> [] | Some children \<Rightarrow> walkTests_suites parentSuites children) @
     (case ts of None \<Rightarrow> [] | Some mochaTests \<Rightarrow> map (Pair parentSuites) mochaTests)"
| "walkTests_suites parentSuites [] = []"
| "walkTests_suites parentSuites (childSuite # rest) =
     walkTests (parentSuites @ [suite_title childSuite]) childSuite @
     walkTests_suites parentSuites rest"

text \<open>
  The suites below a suite, each with the titles of its ancestors, parents before
  children and siblings in order.
\<close>

fun subSuites :: "string list \<Rightarrow> mocha_suite \<Rightarrow> (string list \<times> mocha_suite) list"
  and subSuites_list :: "string list \<Rightarrow> mocha_suite list \<Rightarrow> (string list \<times> mocha_suite) list"
where
  "subSuites parentSuites (MochaSuite ttl fl ts ss) =
     (case ss of None \<Rightarrow> [] | Some children \<Rightarrow> subSuites_list parentSuites children)"
| "subSuites_list parentSuites [] = []"
| "subSuites_list parentSuites (childSuite # rest) =
     (parentSuites, childSuite) #
     subSuites (parentSuites @ [suite_title childSuite]) childSuite @
     subSuites_list parentSuites rest"


text \<open>
  The nodes the walk builds for a suite and for a test met under the ancestor titles
  \<open>fst x\<close>: the stack holds the suite's own title when its node is built.
\<close>

definition nodeOfSuite :: "'l deps \<Rightarrow> string list \<times> mocha_suite \<Rightarrow> suite_node" where
  "nodeOfSuite D x = newTestSuite D (fst x @ [suite_title (snd x)]) (snd x)"

definition nodeOfTest :: "'l deps \<Rightarrow> string list \<times> mocha_test \<Rightarrow> 'l test_node" where
  "nodeOfTest D x = newTest D (fst x) (snd x)"

definition testsOf :: "mocha_suite \<Rightarrow> mocha_test list" where
  "testsOf suite = (case suite_tests suite of None \<Rightarrow> [] | Some mochaTests \<Rightarrow> mochaTests)"

text \<open>
  Every suite below the root has the file of each of its own tests, as Mocha's loader
  leaves it (a \<^verbatim>\<open>describe\<close> block and the tests in it are read from one file).
\<close>

definition ownTestsShareFile :: "mocha_suite \<Rightarrow> bool" where
  "ownTestsShareFile suite =
     list_all (\<lambda>t. orEmpty (test_file t) = orEmpty (suite_file suite)) (testsOf suite)"

definition filesAgree :: "mocha_suite \<Rightarrow> bool" where
  "filesAgree rootSuite = list_all (\<lambda>x. ownTestsShareFile (snd x)) (subSuites [] rootSuite)"

text \<open>
  Every non-null \<^verbatim>\<open>suiteID\<close> of a test is the id of an emitted suite: in the two
  arrays, and, in a history of pushes, among the suites pushed before the test (\<open>seen\<close>
  holds the ids of the suites pushed so far).
\<close>

fun emittedSuites :: "'l emission list \<Rightarrow> suite_node list" where
  "emittedSuites [] = []"
| "emittedSuites (SuiteEmitted n # es) = n # emittedSuites es"
| "emittedSuites (TestEmitted t # es) = emittedSuites es"

fun emittedTests :: "'l emission list \<Rightarrow> 'l test_node list" where
  "emittedTests [] = []"
| "emittedTests (SuiteEmitted n # es) = emittedTests es"
| "emittedTests (TestEmitted t # es) = t # emittedTests es"

fun linksEarlier :: "string list \<Rightarrow> 'l emission list \<Rightarrow> bool" where
  "linksEarlier seen [] = True"
| "linksEarlier seen (SuiteEmitted n # es) = linksEarlier (s_id n # seen) es"
| "linksEarlier seen (TestEmitted t # es) =
     ((case t_suiteId t of None \<Rightarrow> True | Some i \<Rightarrow> i \<in> set seen) \<and> linksEarlier seen es)"

definition linksResolve :: "'l walk \<Rightarrow> bool" where
  "linksResolve W =
     list_all
       (\<lambda>t. case t_suiteId t of None \<Rightarrow> True | Some i \<Rightarrow> i \<in> set (map s_id (testSuites W)))
       (tests W)"

text \<open>
  The history is the history of the two arrays, and every link in it points back.
\<close>

definition walkInv :: "'l walk \<Rightarrow> bool" where
  "walkInv W =
     (tests W = emittedTests (emitted W) \<and> testSuites W = emittedSuites (emitted W) \<and>
      linksEarlier [] (emitted W))"



section \<open>An instance of the collaborators\<close>

text \<open>
  For the closed statements below: qualified names of the form \<^verbatim>\<open>file (title)\<close>,
  locators that join file, ancestor titles and title by \<^verbatim>\<open>##\<close>, a blocklist given as a
  list of locators, an engine that reports nothing, and, in place of the digest, the
  identity: two identifiers of this instance are equal exactly when the strings given
  to the digest are.
\<close>

definition exampleDeps :: "string list \<Rightarrow> mocha_suite \<Rightarrow> string deps" where
  "exampleDeps blocklist rootSuite =
     \<lparr>REPO_ID = ''r'',
      COMMIT_ID = ''c'',
      getIdentifier = (\<lambda>f n. f @ '' ('' @ n @ '')''),
      getLocator = (\<lambda>f parentSuites n. join ''##'' (f # parentSuites @ [n])),
      locatorToString = (\<lambda>l. l),
      isBlocklistedLocator = (\<lambda>l. l \<in> set blocklist),
      md5hex = (\<lambda>s. s),
      pathRelative = (\<lambda>f. f),
      globSync = (\<lambda>g. g),
      getFilesFromTestLocators = (\<lambda>L. []),
      mochaLoad = (\<lambda>files. rootSuite),
      mochaRun = (\<lambda>suite. (None, None)),
      handleDuplicateTests = (\<lambda>rs. rs),
      filterTestResultsByTestLocator = (\<lambda>rs L B. filter (\<lambda>r. tr_locator r \<in> L) rs)\<rparr>"

text \<open>
  A root with the test \<^verbatim>\<open>h\<close> of \<^verbatim>\<open>b.js\<close> and the suite \<^verbatim>\<open>S\<close> of \<^verbatim>\<open>a.js\<close>, which holds the
  tests \<^verbatim>\<open>t\<close> and \<^verbatim>\<open>u\<close>; and a runner whose \<^verbatim>\<open>_testlocator\<close> is given.
\<close>

definition exampleSuite :: mocha_suite where
  "exampleSuite =
     MochaSuite ''S'' (Some ''a.js'')
       (Some [MochaTest ''t'' (Some ''a.js''), MochaTest ''u'' (Some ''a.js'')]) (Some [])"

definition exampleRunner :: "string set \<Rightarrow> string runner" where
  "exampleRunner L = newMochaRunner\<lparr>testlocator := L\<rparr>"

definition exampleRoot :: mocha_suite where
  "exampleRoot = MochaSuite [] None (Some [MochaTest ''h'' (Some ''b.js'')]) (Some [exampleSuite])"

text \<open>The suite \<^verbatim>\<open>S\<close> of \<^verbatim>\<open>a.js\<close> holding a test whose file is \<^verbatim>\<open>b.js\<close>.\<close>

definition mixedRoot :: mocha_suite where
  "mixedRoot =
     MochaSuite [] None (Some [])
       (Some [MochaSuite ''S'' (Some ''a.js'') (Some [MochaTest ''t'' (Some ''b.js'')]) (Some [])])"

text \<open>A root whose first child \<^verbatim>\<open>A\<close> has no \<^verbatim>\<open>suites\<close> array, before a sibling \<^verbatim>\<open>B\<close>.\<close>

definition malformedRoot :: mocha_suite where
  "malformedRoot =
     MochaSuite [] None (Some [])
       (Some [MochaSuite ''A'' (Some ''a.js'') (Some []) None,
              MochaSuite ''B'' (Some ''a.js'') (Some []) (Some [])])"

section \<open>Strings: lemmas\<close>

lemma join_snoc: "xs \<noteq> [] \<Longrightarrow> join sep (xs @ [y]) = join sep xs @ sep @ y"
  by (induction sep xs rule: join.induct) auto

section \<open>\<^verbatim>\<open>filterSpecs\<close>: lemmas\<close>

lemma filterSpecs_test_disposition:
  "filterSpecs_test D anc (fs, R) t =
     (case disposition D (testlocator R) anc t of
        Include \<Rightarrow> (fs @ [t], R)
      | RecordBlockListed \<Rightarrow>
          (fs, recordBlocklistedTest D (transformMochaTestAsTestResult D anc t BlockListed) R)
      | Excluded \<Rightarrow> (fs, R))"
  by (simp add: filterSpecs_test_def disposition_def testLocator_def Let_def)

lemma recordBlocklistedTest_fields [simp]:
  "testlocator (recordBlocklistedTest D r R) = testlocator R"
  "blocklistedSuites (recordBlocklistedTest D r R) = blocklistedSuites R"
  "blocklistedTests (recordBlocklistedTest D r R) = blocklistedTests R @ [r]"
  by (simp_all add: recordBlocklistedTest_def)

lemma foldl_filterSpecs_test:
  "foldl (filterSpecs_test D anc) (fs, R) ts = (fs', R') \<Longrightarrow>
     fs' = fs @ filter (\<lambda>t. disposition D (testlocator R) anc t = Include) ts \<and>
     testlocator R' = testlocator R \<and>
     blocklistedSuites R' = blocklistedSuites R \<and>
     blocklistedTests R' = blocklistedTests R @
       map (\<lambda>t. transformMochaTestAsTestResult D anc t BlockListed)
         (filter (\<lambda>t. disposition D (testlocator R) anc t = RecordBlockListed) ts)"
proof (induction ts arbitrary: fs R)
  case Nil
  then show ?case by simp
next
  case (Cons t ts)
  show ?case
  proof (cases "disposition D (testlocator R) anc t")
    case Include
    with Cons.prems have "foldl (filterSpecs_test D anc) (fs @ [t], R) ts = (fs', R')"
      by (simp add: filterSpecs_test_disposition)
    from Cons.IH [OF this] Include show ?thesis by simp
  next
    case RecordBlockListed
    let ?R = "recordBlocklistedTest D (transformMochaTestAsTestResult D anc t BlockListed) R"
    from Cons.prems RecordBlockListed have "foldl (filterSpecs_test D anc) (fs, ?R) ts = (fs', R')"
      by (simp add: filterSpecs_test_disposition)
    from Cons.IH [OF this] RecordBlockListed show ?thesis by simp
  next
    case Excluded
    with Cons.prems have "foldl (filterSpecs_test D anc) (fs, R) ts = (fs', R')"
      by (simp add: filterSpecs_test_disposition)
    from Cons.IH [OF this] Excluded show ?thesis by simp
  qed
qed

lemma filterSpecs_tests_char:
  assumes "filterSpecs_tests D anc ts R = (fs', R')"
  shows "fs' = filter (\<lambda>t. disposition D (testlocator R) anc t = Include) ts"
    and "testlocator R' = testlocator R"
    and "blocklistedSuites R' = blocklistedSuites R"
    and "blocklistedTests R' = blocklistedTests R @
       map (\<lambda>t. transformMochaTestAsTestResult D anc t BlockListed)
         (filter (\<lambda>t. disposition D (testlocator R) anc t = RecordBlockListed) ts)"
  using foldl_filterSpecs_test [of D anc "[]" R ts fs' R'] assms
  by (simp_all add: filterSpecs_tests_def)

lemma filterSpecs_title:
  "filterSpecs D anc s R = (s', R') \<Longrightarrow> suite_title s' = suite_title s \<and> suite_file s' = suite_file s"
  by (cases s) (auto simp: Let_def split: prod.splits)

lemma filterSpecs_char:
  "filterSpecs D anc s R = (s', R') \<Longrightarrow>
     testlocator R' = testlocator R \<and>
     allTests anc s' = filter (keepP D (testlocator R)) (allTests anc s) \<and>
     blocklistedTests R' = blocklistedTests R @ map (mkT D) (filter (recP D (testlocator R)) (allTests anc s)) \<and>
     blocklistedSuites R' = blocklistedSuites R @ map (mkS D) (filter (blkS D) (subSuites anc s))"
  "filterSpecs_suites D anc cs R = (cs', R') \<Longrightarrow>
     testlocator R' = testlocator R \<and>
     allTests_suites anc cs' = filter (keepP D (testlocator R)) (allTests_suites anc cs) \<and>
     blocklistedTests R' = blocklistedTests R @ map (mkT D) (filter (recP D (testlocator R)) (allTests_suites anc cs)) \<and>
     blocklistedSuites R' = blocklistedSuites R @ map (mkS D) (filter (blkS D) (subSuites_list anc cs))"
proof (induction D anc s R and D anc cs R arbitrary: s' R' and cs' R'
    rule: filterSpecs_filterSpecs_suites.induct)
  case (1 D anc ttl fl ts ss R)
  obtain ts' R1 where T: "(case ts of None \<Rightarrow> (None, R)
             | Some suiteTests \<Rightarrow>
                 (let (filteredTests, R') = filterSpecs_tests D anc suiteTests R
                  in (Some filteredTests, R'))) = (ts', R1)"
    by (cases "(case ts of None \<Rightarrow> (None, R)
             | Some suiteTests \<Rightarrow>
                 (let (filteredTests, R') = filterSpecs_tests D anc suiteTests R
                  in (Some filteredTests, R')))") auto
  have TT: "testlocator R1 = testlocator R \<and> blocklistedSuites R1 = blocklistedSuites R \<and>
      (case ts' of None \<Rightarrow> [] | Some m \<Rightarrow> map (Pair anc) m) =
             filter (keepP D (testlocator R)) (case ts of None \<Rightarrow> [] | Some m \<Rightarrow> map (Pair anc) m) \<and>
      blocklistedTests R1 = blocklistedTests R @ map (mkT D)
             (filter (recP D (testlocator R)) (case ts of None \<Rightarrow> [] | Some m \<Rightarrow> map (Pair anc) m))"
  proof (cases ts)
    case None
    with T show ?thesis by auto
  next
    case (Some m)
    obtain fs where F: "filterSpecs_tests D anc m R = (fs, R1)" and F': "ts' = Some fs"
      using T Some by (auto split: prod.splits)
    from filterSpecs_tests_char [OF F] F' Some show ?thesis
      by (simp add: keepP_def recP_def mkT_def filter_map o_def)
  qed
  then have T1: "testlocator R1 = testlocator R"
    and T2: "blocklistedSuites R1 = blocklistedSuites R"
    and T3: "(case ts' of None \<Rightarrow> [] | Some m \<Rightarrow> map (Pair anc) m) =
             filter (keepP D (testlocator R)) (case ts of None \<Rightarrow> [] | Some m \<Rightarrow> map (Pair anc) m)"
    and T4: "blocklistedTests R1 = blocklistedTests R @ map (mkT D)
             (filter (recP D (testlocator R)) (case ts of None \<Rightarrow> [] | Some m \<Rightarrow> map (Pair anc) m))"
    by simp_all
  show ?case
  proof (cases ss)
    case None
    with "1.prems" T T1 T2 T3 T4 show ?thesis by auto
  next
    case (Some children)
    obtain cs' R2 where C: "filterSpecs_suites D anc children R1 = (cs', R2)"
      by (cases "filterSpecs_suites D anc children R1") auto
    from "1.IH" [OF T [symmetric] refl Some C] T1
    have IH: "testlocator R2 = testlocator R"
      "allTests_suites anc cs' = filter (keepP D (testlocator R)) (allTests_suites anc children)"
      "blocklistedTests R2 = blocklistedTests R1 @ map (mkT D) (filter (recP D (testlocator R)) (allTests_suites anc children))"
      "blocklistedSuites R2 = blocklistedSuites R1 @ map (mkS D) (filter (blkS D) (subSuites_list anc children))"
      by simp_all
    from "1.prems" T C Some have "s' = MochaSuite ttl fl ts' (Some cs')" "R' = R2"
      by auto
    with IH T2 T3 T4 Some show ?thesis by simp
  qed
next
  case (2 D anc R)
  then show ?case by simp
next
  case (3 D anc c rest R)
  define R1 where "R1 = (if isBlocklistedLocator D (getLocator D (orEmpty (suite_file c)) anc (suite_title c))
                then R\<lparr>blocklistedSuites := blocklistedSuites R @
                        [transformMochaSuiteAsSuiteResult D anc c BlockListed]\<rparr>
                else R)"
  obtain c' R2 where A: "filterSpecs D (anc @ [suite_title c]) c R1 = (c', R2)"
    by (cases "filterSpecs D (anc @ [suite_title c]) c R1") auto
  obtain rest' R3 where B: "filterSpecs_suites D anc rest R2 = (rest', R3)"
    by (cases "filterSpecs_suites D anc rest R2") auto
  have R1: "testlocator R1 = testlocator R" "blocklistedTests R1 = blocklistedTests R"
    "blocklistedSuites R1 = blocklistedSuites R @ map (mkS D) (filter (blkS D) [(anc, c)])"
    by (auto simp: R1_def blkS_def mkS_def suiteLocator_def)
  note IH1 = "3.IH"(1) [OF refl refl R1_def A]
  note IH2 = "3.IH"(2) [OF refl refl R1_def A [symmetric] refl B]
  from "3.prems" A B have E: "cs' = c' # rest'" "R' = R3"
    by (auto simp: R1_def Let_def)
  from IH1 IH2 R1 filterSpecs_title [OF A] show ?case unfolding E by simp
qed

lemmas example_defs =
  exampleDeps_def exampleRoot_def exampleSuite_def exampleRunner_def newMochaRunner_def
  mixedRoot_def malformedRoot_def

lemmas filter_defs =
  filterSpecs_tests_def filterSpecs_test_def recordBlocklistedTest_def
  transformMochaTestAsTestResult_def transformMochaSuiteAsSuiteResult_def
  testLocator_def suiteLocator_def orEmpty_def Let_def

lemmas vocabulary_defs =
  keepP_def recP_def dropP_def mkT_def mkS_def blkS_def disposition_def

lemma partition_by_disposition:
  "mset xs = mset (filter (keepP D L) xs) + mset (filter (recP D L) xs) + mset (filter (dropP D L) xs)"
proof (induction xs)
  case Nil
  show ?case by simp
next
  case (Cons x xs)
  then show ?case
    by (cases "disposition D L (fst x) (snd x)") (simp_all add: keepP_def recP_def dropP_def)
qed

text \<open>
  Claim C4. A pass of the filter over a tree gives every test exactly one of three
  dispositions: the tests left in the tree (the run set) are those of disposition
  \<open>Include\<close>, the records added to \<^verbatim>\<open>_blocklistedTests\<close> are those of the tests of
  disposition \<open>RecordBlockListed\<close>, in order, and the tests of the tree are, as a
  multiset, the run set, the recorded tests and the dropped ones together.
\<close>

theorem filter_partitions_tests:
  "filterSpecs D anc s R = (s', R') \<Longrightarrow>
     allTests anc s' = filter (keepP D (testlocator R)) (allTests anc s) \<and>
     blocklistedTests R' =
       blocklistedTests R @ map (mkT D) (filter (recP D (testlocator R)) (allTests anc s)) \<and>
     mset (allTests anc s) =
       mset (allTests anc s') +
       mset (filter (recP D (testlocator R)) (allTests anc s)) +
       mset (filter (dropP D (testlocator R)) (allTests anc s))"
  using filterSpecs_char(1) [of D anc s R s' R']
    partition_by_disposition [of "allTests anc s" D "testlocator R"]
  by simp

lemma example_filter_selected:
  "filterSpecs (exampleDeps [''a.js##S##t''] exampleRoot) [] exampleRoot
     (exampleRunner {''a.js##S##t'', ''a.js##S##u''}) =
   (MochaSuite [] None (Some [])
      (Some [MochaSuite ''S'' (Some ''a.js'') (Some [MochaTest ''u'' (Some ''a.js'')]) (Some [])]),
    \<lparr>blocklistedTests =
       [\<lparr>tr_title = ''t'', tr_locator = ''a.js##S##t'', tr_status = BlockListed\<rparr>],
     blockListedLocators = {''a.js##S##t''}, blocklistedSuites = [],
     testlocator = {''a.js##S##t'', ''a.js##S##u''}\<rparr>)"
  by (simp add: example_defs filter_defs)

theorem filter_partitions_tests_witness:
  "allTests [] (MochaSuite [] None (Some [])
      (Some [MochaSuite ''S'' (Some ''a.js'') (Some [MochaTest ''u'' (Some ''a.js'')]) (Some [])])) =
     [([''S''], MochaTest ''u'' (Some ''a.js''))] \<and>
   map (mkT (exampleDeps [''a.js##S##t''] exampleRoot))
     (filter (recP (exampleDeps [''a.js##S##t''] exampleRoot) {''a.js##S##t'', ''a.js##S##u''})
        (allTests [] exampleRoot)) =
     [\<lparr>tr_title = ''t'', tr_locator = ''a.js##S##t'', tr_status = BlockListed\<rparr>] \<and>
   filter (dropP (exampleDeps [''a.js##S##t''] exampleRoot) {''a.js##S##t'', ''a.js##S##u''})
     (allTests [] exampleRoot) = [([], MochaTest ''h'' (Some ''b.js''))]"
  using filter_partitions_tests [OF example_filter_selected]
  by (simp add: example_defs filter_defs vocabulary_defs)

lemma mkT_locator: "tr_locator (mkT D x) = testLocator D (fst x) (snd x)"
  by (simp add: mkT_def transformMochaTestAsTestResult_def)

lemma recP_selected:
  "L \<noteq> {} \<Longrightarrow> recP D L x \<Longrightarrow> locatorToString D (testLocator D (fst x) (snd x)) \<in> L"
  by (simp add: recP_def disposition_def split: if_splits)

text \<open>
  Claim C1, as amended. In a pass with a non-empty \<^verbatim>\<open>_testlocator\<close>, a test of the tree
  whose locator matches the blocklist is never left in the run set, and a BlockListed
  record of it is among the records the pass adds to \<^verbatim>\<open>_blocklistedTests\<close> exactly when
  its locator is in \<^verbatim>\<open>_testlocator\<close>: line 269 guards the blocklist test, so a
  blocklisted test that is not selected is dropped without a record.
\<close>

theorem blocklisted_test_under_selection:
  assumes "filterSpecs D anc s R = (s', R')"
    and "testlocator R \<noteq> {}"
    and "(a, t) \<in> set (allTests anc s)"
    and "isBlocklistedLocator D (testLocator D a t)"
  shows "(a, t) \<notin> set (allTests anc s') \<and>
         (mkT D (a, t) \<in> set (drop (length (blocklistedTests R)) (blocklistedTests R')) \<longleftrightarrow>
          locatorToString D (testLocator D a t) \<in> testlocator R)"
proof -
  let ?L = "testlocator R"
  let ?new = "map (mkT D) (filter (recP D ?L) (allTests anc s))"
  from filterSpecs_char(1) [OF assms(1)]
  have kept: "allTests anc s' = filter (keepP D ?L) (allTests anc s)"
    and recd: "blocklistedTests R' = blocklistedTests R @ ?new"
    by simp_all
  have "\<not> keepP D ?L (a, t)"
    using assms(4) by (simp add: keepP_def disposition_def)
  then have run: "(a, t) \<notin> set (allTests anc s')"
    by (simp add: kept)
  have new: "drop (length (blocklistedTests R)) (blocklistedTests R') = ?new"
    by (simp add: recd)
  have "mkT D (a, t) \<in> set ?new \<longleftrightarrow> locatorToString D (testLocator D a t) \<in> ?L"
  proof
    assume "mkT D (a, t) \<in> set ?new"
    then obtain x where x: "recP D ?L x" and eq: "mkT D x = mkT D (a, t)"
      by auto
    from eq have "tr_locator (mkT D x) = tr_locator (mkT D (a, t))"
      by simp
    then have "testLocator D (fst x) (snd x) = testLocator D a t"
      by (simp add: mkT_locator)
    with recP_selected [OF assms(2) x] show "locatorToString D (testLocator D a t) \<in> ?L"
      by simp
  next
    assume "locatorToString D (testLocator D a t) \<in> ?L"
    with assms(2,4) have "recP D ?L (a, t)"
      by (simp add: recP_def disposition_def)
    with assms(3) show "mkT D (a, t) \<in> set ?new"
      by auto
  qed
  with run new show ?thesis by simp
qed

theorem blocklisted_test_under_selection_witness:
  "(([''S''], MochaTest ''t'' (Some ''a.js'')) \<notin> set (allTests [] (MochaSuite [] None (Some [])
      (Some [MochaSuite ''S'' (Some ''a.js'') (Some [MochaTest ''u'' (Some ''a.js'')]) (Some [])])))) \<and>
   mkT (exampleDeps [''a.js##S##t''] exampleRoot) ([''S''], MochaTest ''t'' (Some ''a.js'')) \<in>
     set [\<lparr>tr_title = ''t'', tr_locator = ''a.js##S##t'', tr_status = BlockListed\<rparr>] \<and>
   locatorToString (exampleDeps [''a.js##S##t''] exampleRoot)
     (testLocator (exampleDeps [''a.js##S##t''] exampleRoot) [''S''] (MochaTest ''t'' (Some ''a.js''))) \<in>
     {''a.js##S##t'', ''a.js##S##u''}"
  using blocklisted_test_under_selection [OF example_filter_selected,
      of "[''S'']" "MochaTest ''t'' (Some ''a.js'')"]
  by (simp add: example_defs filter_defs vocabulary_defs)

text \<open>
  The claim as stated fails: \<^verbatim>\<open>t\<close> is blocklisted and the selection names only \<^verbatim>\<open>h\<close>;
  the pass records nothing and keeps \<^verbatim>\<open>h\<close>.
\<close>

theorem blocklisted_test_not_selected_counterexample:
  "testlocator (exampleRunner {''b.js##h''}) \<noteq> {} \<and>
   ([''S''], MochaTest ''t'' (Some ''a.js'')) \<in> set (allTests [] exampleRoot) \<and>
   isBlocklistedLocator (exampleDeps [''a.js##S##t''] exampleRoot)
     (testLocator (exampleDeps [''a.js##S##t''] exampleRoot) [''S''] (MochaTest ''t'' (Some ''a.js''))) \<and>
   blocklistedTests (snd (filterSpecs (exampleDeps [''a.js##S##t''] exampleRoot) [] exampleRoot
      (exampleRunner {''b.js##h''}))) = [] \<and>
   allTests [] (fst (filterSpecs (exampleDeps [''a.js##S##t''] exampleRoot) [] exampleRoot
      (exampleRunner {''b.js##h''}))) = [([], MochaTest ''h'' (Some ''b.js''))]"
  by (simp add: example_defs filter_defs)

section \<open>Blocklisted suites\<close>

text \<open>
  Claim C2, as amended. When the loop over \<^verbatim>\<open>suite.suites\<close> meets a child whose locator
  matches the blocklist, it appends one BlockListed record of that child to
  \<^verbatim>\<open>_blocklistedSuites\<close> and then calls \<^verbatim>\<open>filterSpecs\<close> on the child as on any other
  suite: the subtree is not pruned. Every test below the child is kept, recorded as
  BlockListed or dropped by its own disposition, and the suites below it that match the
  blocklist get records of their own, after the child's.
\<close>

theorem blocklisted_suite_is_recorded_not_pruned:
  assumes "filterSpecs_suites D anc (c # rest) R = (cs', R')"
    and "isBlocklistedLocator D (suiteLocator D anc c)"
  shows "\<exists>c' rest' R2.
           cs' = c' # rest' \<and>
           filterSpecs D (anc @ [suite_title c]) c
             (R\<lparr>blocklistedSuites := blocklistedSuites R @ [mkS D (anc, c)]\<rparr>) = (c', R2) \<and>
           filterSpecs_suites D anc rest R2 = (rest', R') \<and>
           blocklistedSuites R2 =
             blocklistedSuites R @
             mkS D (anc, c) # map (mkS D) (filter (blkS D) (subSuites (anc @ [suite_title c]) c)) \<and>
           allTests (anc @ [suite_title c]) c' =
             filter (keepP D (testlocator R)) (allTests (anc @ [suite_title c]) c) \<and>
           blocklistedTests R2 =
             blocklistedTests R @
             map (mkT D) (filter (recP D (testlocator R)) (allTests (anc @ [suite_title c]) c))"
proof -
  let ?R1 = "R\<lparr>blocklistedSuites := blocklistedSuites R @ [mkS D (anc, c)]\<rparr>"
  obtain c' R2 where A: "filterSpecs D (anc @ [suite_title c]) c ?R1 = (c', R2)"
    by (cases "filterSpecs D (anc @ [suite_title c]) c ?R1") auto
  obtain rest' R3 where B: "filterSpecs_suites D anc rest R2 = (rest', R3)"
    by (cases "filterSpecs_suites D anc rest R2") auto
  from assms A B have E: "cs' = c' # rest'" "R' = R3"
    by (auto simp: Let_def mkS_def suiteLocator_def)
  from filterSpecs_char(1) [OF A] A B E show ?thesis
    by simp
qed

lemma example_filter_suite:
  "filterSpecs_suites (exampleDeps [''a.js##S''] exampleRoot) [] [exampleSuite] (exampleRunner {}) =
     ([exampleSuite],
      \<lparr>blocklistedTests = [], blockListedLocators = {},
       blocklistedSuites =
         [\<lparr>sr_title = ''S'', sr_locator = ''a.js##S'', sr_status = BlockListed\<rparr>],
       testlocator = {}\<rparr>)"
  by (simp add: example_defs filter_defs)

theorem blocklisted_suite_is_recorded_not_pruned_witness:
  "isBlocklistedLocator (exampleDeps [''a.js##S''] exampleRoot)
     (suiteLocator (exampleDeps [''a.js##S''] exampleRoot) [] exampleSuite) \<and>
   (\<exists>c' (R2 :: string runner). allTests [''S''] c' =
        [([''S''], MochaTest ''t'' (Some ''a.js'')), ([''S''], MochaTest ''u'' (Some ''a.js''))] \<and>
      blocklistedSuites R2 = [\<lparr>sr_title = ''S'', sr_locator = ''a.js##S'', sr_status = BlockListed\<rparr>] \<and>
      blocklistedTests R2 = ([] :: string test_result list))"
proof -
  have b: "isBlocklistedLocator (exampleDeps [''a.js##S''] exampleRoot)
     (suiteLocator (exampleDeps [''a.js##S''] exampleRoot) [] exampleSuite)"
    by (simp add: example_defs filter_defs)
  from blocklisted_suite_is_recorded_not_pruned [OF example_filter_suite b]
  obtain c' :: mocha_suite and R2 :: "string runner" where
    "allTests ([] @ [suite_title exampleSuite]) c' =
       filter (keepP (exampleDeps [''a.js##S''] exampleRoot) (testlocator (exampleRunner {})))
         (allTests ([] @ [suite_title exampleSuite]) exampleSuite)"
    "blocklistedSuites R2 = blocklistedSuites (exampleRunner {}) @
       mkS (exampleDeps [''a.js##S''] exampleRoot) ([], exampleSuite) #
       map (mkS (exampleDeps [''a.js##S''] exampleRoot))
         (filter (blkS (exampleDeps [''a.js##S''] exampleRoot))
           (subSuites ([] @ [suite_title exampleSuite]) exampleSuite))"
    "blocklistedTests R2 = blocklistedTests (exampleRunner {}) @
       map (mkT (exampleDeps [''a.js##S''] exampleRoot))
         (filter (recP (exampleDeps [''a.js##S''] exampleRoot) (testlocator (exampleRunner {})))
           (allTests ([] @ [suite_title exampleSuite]) exampleSuite))"
    by blast
  then have "allTests [''S''] c' =
        [([''S''], MochaTest ''t'' (Some ''a.js'')), ([''S''], MochaTest ''u'' (Some ''a.js''))] \<and>
      blocklistedSuites R2 = [\<lparr>sr_title = ''S'', sr_locator = ''a.js##S'', sr_status = BlockListed\<rparr>] \<and>
      blocklistedTests R2 = ([] :: string test_result list)"
    by (simp add: example_defs filter_defs vocabulary_defs)
  with b show ?thesis by blast
qed

text \<open>
  The claim as stated fails. With only the suite \<^verbatim>\<open>S\<close> on the blocklist and no selection,
  its tests \<^verbatim>\<open>t\<close> and \<^verbatim>\<open>u\<close> stay in the run set; with \<^verbatim>\<open>t\<close> on the blocklist as well,
  \<^verbatim>\<open>t\<close> gets a test-level record of its own.
\<close>

theorem blocklisted_suite_pruned_counterexample:
  "isBlocklistedLocator (exampleDeps [''a.js##S''] exampleRoot)
     (suiteLocator (exampleDeps [''a.js##S''] exampleRoot) [] exampleSuite) \<and>
   allTests [] (fst (filterSpecs (exampleDeps [''a.js##S''] exampleRoot) [] exampleRoot (exampleRunner {}))) =
     [([], MochaTest ''h'' (Some ''b.js'')),
      ([''S''], MochaTest ''t'' (Some ''a.js'')),
      ([''S''], MochaTest ''u'' (Some ''a.js''))] \<and>
   isBlocklistedLocator (exampleDeps [''a.js##S'', ''a.js##S##t''] exampleRoot)
     (suiteLocator (exampleDeps [''a.js##S'', ''a.js##S##t''] exampleRoot) [] exampleSuite) \<and>
   blocklistedTests (snd (filterSpecs (exampleDeps [''a.js##S'', ''a.js##S##t''] exampleRoot) []
      exampleRoot (exampleRunner {}))) =
     [\<lparr>tr_title = ''t'', tr_locator = ''a.js##S##t'', tr_status = BlockListed\<rparr>]"
  by (simp add: example_defs filter_defs)

section \<open>\<^verbatim>\<open>execute\<close> and \<^verbatim>\<open>executeTests\<close>: lemmas\<close>

declare executeTests_repeat.simps [simp del]




lemma keepP_not_recP: "keepP D L x \<Longrightarrow> \<not> recP D L x"
  by (simp add: keepP_def recP_def)






text \<open>
  Claim C3 fails on the code: \<^verbatim>\<open>execute\<close> resets \<^verbatim>\<open>_testlocator\<close> (line 104) and not
  the three blocklist fields, and every pass wraps \<^verbatim>\<open>run\<close> once more. One group run
  twice over a tree whose suite \<^verbatim>\<open>S\<close> is blocklisted: the second pass reports the record
  of the first pass and two of its own.
\<close>

theorem second_pass_repeats_blocklisted_suite:
  "map testSuiteResults
     (fst (executeTests (exampleDeps [''a.js##S''] exampleRoot) []
       (Some [\<lparr>locators = [''a.js##S##t''], numberofexecutions = 2\<rparr>]) newProcess)) =
   [[\<lparr>sr_title = ''S'', sr_locator = ''a.js##S'', sr_status = BlockListed\<rparr>],
    [\<lparr>sr_title = ''S'', sr_locator = ''a.js##S'', sr_status = BlockListed\<rparr>,
     \<lparr>sr_title = ''S'', sr_locator = ''a.js##S'', sr_status = BlockListed\<rparr>,
     \<lparr>sr_title = ''S'', sr_locator = ''a.js##S'', sr_status = BlockListed\<rparr>]]"
  by (simp add: executeTests_def executeTests_repeat.simps execute_def uniq_def
      example_defs filter_defs newProcess_def)






section \<open>\<^verbatim>\<open>listTestsAndTestSuites\<close>: lemmas\<close>

lemma foldl_pushTest:
  "foldl (pushTest D) W ts =
     W\<lparr>tests := tests W @ map (newTest D (ancestorTitles W)) ts,
       emitted := emitted W @ map (\<lambda>t. TestEmitted (newTest D (ancestorTitles W) t)) ts\<rparr>"
  by (induction ts arbitrary: W) (simp_all add: pushTest_def)

lemma pushTestSuite_fields [simp]:
  "ancestorTitles (pushTestSuite D W c) = ancestorTitles W @ [suite_title c]"
  "testSuites (pushTestSuite D W c) = testSuites W @ [nodeOfSuite D (ancestorTitles W, c)]"
  "tests (pushTestSuite D W c) = tests W"
  "emitted (pushTestSuite D W c) = emitted W @ [SuiteEmitted (nodeOfSuite D (ancestorTitles W, c))]"
  by (simp_all add: pushTestSuite_def nodeOfSuite_def Let_def)

lemma walk_returned:
  "listTestsAndTestSuites D s W = (Returned, W') \<Longrightarrow>
     ancestorTitles W' = ancestorTitles W \<and>
     testSuites W' = testSuites W @ map (nodeOfSuite D) (subSuites (ancestorTitles W) s) \<and>
     tests W' = tests W @ map (nodeOfTest D) (walkTests (ancestorTitles W) s)"
  "listChildSuites D cs W = (Returned, W') \<Longrightarrow>
     ancestorTitles W' = ancestorTitles W \<and>
     testSuites W' = testSuites W @ map (nodeOfSuite D) (subSuites_list (ancestorTitles W) cs) \<and>
     tests W' = tests W @ map (nodeOfTest D) (walkTests_suites (ancestorTitles W) cs)"
proof (induction D s W and D cs W arbitrary: W' and W' rule: listTestsAndTestSuites_listChildSuites.induct)
  case (1 D ttl fl ts ss W)
  from "1.prems" obtain children where ss: "ss = Some children"
    by (cases ss) auto
  from "1.prems" ss obtain W1 where C: "listChildSuites D children W = (Returned, W1)"
    by (cases "listChildSuites D children W") (auto split: outcome.splits)
  from "1.prems" ss C obtain mochaTests where ts: "ts = Some mochaTests"
    by (cases ts) auto
  from "1.prems" ss C ts have W': "W' = foldl (pushTest D) W1 mochaTests"
    by simp
  from "1.IH" [OF ss C] show ?case
    by (simp add: W' ss ts foldl_pushTest nodeOfTest_def o_def)
next
  case (2 D W)
  then show ?case by simp
next
  case (3 D c rest W)
  from "3.prems" obtain W3 where
    A: "listTestsAndTestSuites D c (pushTestSuite D W c) = (Returned, W3)"
    by (cases "listTestsAndTestSuites D c (pushTestSuite D W c)") (auto split: outcome.splits)
  with "3.prems" have B:
    "listChildSuites D rest (W3\<lparr>ancestorTitles := butlast (ancestorTitles W3)\<rparr>) = (Returned, W')"
    by simp
  from "3.IH"(1) [OF A] have a: "ancestorTitles W3 = ancestorTitles W @ [suite_title c]"
    and b: "testSuites W3 = testSuites W @ nodeOfSuite D (ancestorTitles W, c) #
              map (nodeOfSuite D) (subSuites (ancestorTitles W @ [suite_title c]) c)"
    and c: "tests W3 = tests W @ map (nodeOfTest D) (walkTests (ancestorTitles W @ [suite_title c]) c)"
    by simp_all
  from "3.IH"(2) [OF A [symmetric] refl B] a b c show ?case
    by simp
qed

lemma walk_thrown:
  "listTestsAndTestSuites D s W = (Thrown e, W') \<Longrightarrow>
     \<exists>more. ancestorTitles W' = ancestorTitles W @ more"
  "listChildSuites D cs W = (Thrown e, W') \<Longrightarrow>
     \<exists>more. ancestorTitles W' = ancestorTitles W @ more"
proof (induction D s W and D cs W arbitrary: W' and W' rule: listTestsAndTestSuites_listChildSuites.induct)
  case (1 D ttl fl ts ss W)
  show ?case
  proof (cases ss)
    case None
    with "1.prems" show ?thesis by simp
  next
    case (Some children)
    obtain o1 W1 where C: "listChildSuites D children W = (o1, W1)"
      by (cases "listChildSuites D children W") auto
    show ?thesis
    proof (cases o1)
      case Returned
      with "1.prems" Some C have "W' = W1"
        by (cases ts) auto
      with walk_returned(2) [OF C [unfolded Returned]] show ?thesis by simp
    next
      case (Thrown e')
      with "1.prems" Some C have "W' = W1" "e' = e"
        by auto
      with "1.IH" [OF Some] C Thrown show ?thesis by simp
    qed
  qed
next
  case (2 D W)
  then show ?case by simp
next
  case (3 D c rest W)
  obtain o3 W3 where A: "listTestsAndTestSuites D c (pushTestSuite D W c) = (o3, W3)"
    by (cases "listTestsAndTestSuites D c (pushTestSuite D W c)") auto
  show ?case
  proof (cases o3)
    case Returned
    with "3.prems" A have B:
      "listChildSuites D rest (W3\<lparr>ancestorTitles := butlast (ancestorTitles W3)\<rparr>) = (Thrown e, W')"
      by simp
    from walk_returned(1) [OF A [unfolded Returned]]
    have "ancestorTitles W3 = ancestorTitles W @ [suite_title c]"
      by simp
    with "3.IH"(2) [OF A [unfolded Returned, symmetric] refl B] show ?thesis
      by simp
  next
    case (Thrown e')
    with "3.prems" A have "W' = W3" "e' = e"
      by auto
    with "3.IH"(1) [of W3] A Thrown show ?thesis
      by auto
  qed
qed

lemmas walk_defs =
  discover_def emptyWalk_def pushTestSuite_def pushTest_def newTestSuite_def newTest_def chainInput_def
  testInput_def orEmpty_def NL_def Let_def

text \<open>
  Claim C8, as amended. When the walk of a child returns, the stack holds the child's
  title on top of what it held before the child was entered, the title is popped, and the
  later siblings are walked on the stack as it was. When the walk of a child throws,
  nothing is popped: the error leaves the loop and the enclosing call at once, with the
  child's title still on the stack above what was there before, and no later sibling is
  walked.
\<close>

theorem stack_after_child_walk:
  "(listTestsAndTestSuites D c (pushTestSuite D W c) = (Returned, W3) \<longrightarrow>
      ancestorTitles W3 = ancestorTitles W @ [suite_title c] \<and>
      listChildSuites D (c # rest) W =
        listChildSuites D rest (W3\<lparr>ancestorTitles := ancestorTitles W\<rparr>)) \<and>
   (listTestsAndTestSuites D c (pushTestSuite D W c) = (Thrown e, W3) \<longrightarrow>
      take (Suc (length (ancestorTitles W))) (ancestorTitles W3) =
        ancestorTitles W @ [suite_title c] \<and>
      listChildSuites D (c # rest) W = (Thrown e, W3) \<and>
      listTestsAndTestSuites D (MochaSuite ttl fl ts (Some (c # rest))) W = (Thrown e, W3))"
proof (intro conjI impI)
  assume A: "listTestsAndTestSuites D c (pushTestSuite D W c) = (Returned, W3)"
  from walk_returned(1) [OF A] show a: "ancestorTitles W3 = ancestorTitles W @ [suite_title c]"
    by simp
  from A a show "listChildSuites D (c # rest) W =
      listChildSuites D rest (W3\<lparr>ancestorTitles := ancestorTitles W\<rparr>)"
    by simp
next
  assume A: "listTestsAndTestSuites D c (pushTestSuite D W c) = (Thrown e, W3)"
  from walk_thrown(1) [OF A] obtain more where
    "ancestorTitles W3 = (ancestorTitles W @ [suite_title c]) @ more"
    by auto
  then show "take (Suc (length (ancestorTitles W))) (ancestorTitles W3) =
      ancestorTitles W @ [suite_title c]"
    by simp
  from A show B: "listChildSuites D (c # rest) W = (Thrown e, W3)"
    by simp
  then show "listTestsAndTestSuites D (MochaSuite ttl fl ts (Some (c # rest))) W = (Thrown e, W3)"
    by simp
qed

theorem stack_after_child_walk_witness:
  "fst (listTestsAndTestSuites (exampleDeps [] exampleRoot) (MochaSuite ''A'' (Some ''a.js'') (Some []) None)
          (pushTestSuite (exampleDeps [] exampleRoot) emptyWalk
             (MochaSuite ''A'' (Some ''a.js'') (Some []) None))) = Thrown TypeError \<and>
   fst (listChildSuites (exampleDeps [] exampleRoot)
          [MochaSuite ''A'' (Some ''a.js'') (Some []) None,
           MochaSuite ''B'' (Some ''a.js'') (Some []) (Some [])] emptyWalk) = Thrown TypeError \<and>
   ancestorTitles (snd (listChildSuites (exampleDeps [] exampleRoot)
          [MochaSuite ''A'' (Some ''a.js'') (Some []) None,
           MochaSuite ''B'' (Some ''a.js'') (Some []) (Some [])] emptyWalk)) = [''A''] \<and>
   fst (listTestsAndTestSuites (exampleDeps [] exampleRoot) (MochaSuite ''B'' (Some ''a.js'') (Some []) (Some []))
          (pushTestSuite (exampleDeps [] exampleRoot) emptyWalk
             (MochaSuite ''B'' (Some ''a.js'') (Some []) (Some [])))) = Returned \<and>
   fst (listChildSuites (exampleDeps [] exampleRoot)
          [MochaSuite ''B'' (Some ''a.js'') (Some []) (Some [])] emptyWalk) = Returned \<and>
   ancestorTitles (snd (listChildSuites (exampleDeps [] exampleRoot)
          [MochaSuite ''B'' (Some ''a.js'') (Some []) (Some [])] emptyWalk)) = []"
proof -
  let ?D = "exampleDeps [] exampleRoot :: string deps"
  let ?A = "MochaSuite ''A'' (Some ''a.js'') (Some []) None"
  let ?B = "MochaSuite ''B'' (Some ''a.js'') (Some []) (Some [])"
  let ?WA = "snd (listTestsAndTestSuites ?D ?A (pushTestSuite ?D emptyWalk ?A))"
  let ?WB = "snd (listTestsAndTestSuites ?D ?B (pushTestSuite ?D emptyWalk ?B))"
  have a: "fst (listTestsAndTestSuites ?D ?A (pushTestSuite ?D emptyWalk ?A)) = Thrown TypeError"
    by simp
  have b: "fst (listTestsAndTestSuites ?D ?B (pushTestSuite ?D emptyWalk ?B)) = Returned"
    by simp
  from a have A: "listTestsAndTestSuites ?D ?A (pushTestSuite ?D emptyWalk ?A) = (Thrown TypeError, ?WA)"
    by (metis prod.collapse)
  from b have B: "listTestsAndTestSuites ?D ?B (pushTestSuite ?D emptyWalk ?B) = (Returned, ?WB)"
    by (metis prod.collapse)
  from stack_after_child_walk [where D = ?D and c = ?A and W = emptyWalk and e = TypeError
      and ?W3.0 = ?WA and rest = "[?B]"] A
  have 1: "take (Suc (length (ancestorTitles (emptyWalk :: string walk)))) (ancestorTitles ?WA) =
      ancestorTitles (emptyWalk :: string walk) @ [suite_title ?A]"
    and 2: "listChildSuites ?D [?A, ?B] emptyWalk = (Thrown TypeError, ?WA)"
    by blast+
  from stack_after_child_walk [where D = ?D and c = ?B and W = emptyWalk and ?W3.0 = ?WB and rest = "[]"] B
  have 3: "ancestorTitles ?WB = ancestorTitles (emptyWalk :: string walk) @ [suite_title ?B]"
    and 4: "listChildSuites ?D [?B] emptyWalk =
      listChildSuites ?D [] (?WB\<lparr>ancestorTitles := ancestorTitles (emptyWalk :: string walk)\<rparr>)"
    by blast+
  have 5: "ancestorTitles ?WA = [''A'']"
    by (simp add: pushTestSuite_def Let_def emptyWalk_def)
  from a b 2 4 5 show ?thesis
    by (simp add: emptyWalk_def)
qed

text \<open>
  The claim as stated fails: the child \<^verbatim>\<open>A\<close> throws, and the error leaves the walk with
  \<^verbatim>\<open>A\<close> on the stack, which was empty before \<^verbatim>\<open>A\<close> was entered; the sibling \<^verbatim>\<open>B\<close> is
  never reached.
\<close>

theorem stack_not_popped_on_error_counterexample:
  "fst (discover (exampleDeps [] exampleRoot) malformedRoot) = Thrown TypeError \<and>
   ancestorTitles (snd (discover (exampleDeps [] exampleRoot) malformedRoot)) = [''A''] \<and>
   map s_name (testSuites (snd (discover (exampleDeps [] exampleRoot) malformedRoot))) = [''a.js (A)'']"
  by (simp add: example_defs walk_defs)

subsection \<open>The links of tests to suites\<close>

lemma linksEarlier_append:
  "linksEarlier seen (xs @ ys) =
     (linksEarlier seen xs \<and> linksEarlier (rev (map s_id (emittedSuites xs)) @ seen) ys)"
proof (induction xs arbitrary: seen)
  case Nil
  show ?case by simp
next
  case (Cons x xs)
  then show ?case by (cases x) auto
qed

lemma emitted_append [simp]:
  "emittedSuites (xs @ ys) = emittedSuites xs @ emittedSuites ys"
  "emittedTests (xs @ ys) = emittedTests xs @ emittedTests ys"
proof (induction xs)
  case Nil
  {
    case 1 show ?case by simp
  next
    case 2 show ?case by simp
  }
next
  case (Cons x xs)
  {
    case 1 with Cons show ?case by (cases x) simp_all
  next
    case 2 with Cons show ?case by (cases x) simp_all
  }
qed

lemma linksEarlier_resolve:
  "linksEarlier seen es \<Longrightarrow> t \<in> set (emittedTests es) \<Longrightarrow> t_suiteId t = Some i \<Longrightarrow>
     i \<in> set seen \<union> set (map s_id (emittedSuites es))"
proof (induction seen es rule: linksEarlier.induct)
  case (1 seen)
  then show ?case by simp
next
  case (2 seen n es)
  then show ?case by auto
next
  case (3 seen t' es)
  then show ?case by auto
qed

lemma walkInv_linksResolve: "walkInv W \<Longrightarrow> linksResolve W"
  unfolding walkInv_def linksResolve_def list_all_iff
  by (auto split: option.splits dest: linksEarlier_resolve)

lemma walkInv_pushTest:
  assumes "walkInv W"
    and "case t_suiteId (newTest D (ancestorTitles W) t) of None \<Rightarrow> True
         | Some i \<Rightarrow> i \<in> set (map s_id (testSuites W))"
  shows "walkInv (pushTest D W t)"
  using assms
  by (simp add: walkInv_def pushTest_def linksEarlier_append split: option.splits)

lemma pushTest_fields [simp]:
  "testSuites (pushTest D W t) = testSuites W"
  "ancestorTitles (pushTest D W t) = ancestorTitles W"
  by (simp_all add: pushTest_def)

lemma walkInv_pushTests:
  assumes "walkInv W"
    and "\<forall>t \<in> set ts. case t_suiteId (newTest D (ancestorTitles W) t) of None \<Rightarrow> True
         | Some i \<Rightarrow> i \<in> set (map s_id (testSuites W))"
  shows "walkInv (foldl (pushTest D) W ts) \<and> testSuites (foldl (pushTest D) W ts) = testSuites W"
  using assms
proof (induction ts arbitrary: W)
  case Nil
  then show ?case by simp
next
  case (Cons t ts)
  from Cons.prems have "walkInv (pushTest D W t)"
    by (intro walkInv_pushTest) simp_all
  moreover from Cons.prems have "\<forall>t' \<in> set ts.
      case t_suiteId (newTest D (ancestorTitles (pushTest D W t)) t') of None \<Rightarrow> True
      | Some i \<Rightarrow> i \<in> set (map s_id (testSuites (pushTest D W t)))"
    by (simp cong: option.case_cong)
  ultimately show ?case
    using Cons.IH [of "pushTest D W t"] by simp
qed

lemma walkInv_pushTestSuite: "walkInv W \<Longrightarrow> walkInv (pushTestSuite D W c)"
  by (simp add: walkInv_def linksEarlier_append)

lemma own_tests_link:
  assumes "ancestorTitles W = [] \<or>
      (ownTestsShareFile s \<and> s_id (newTestSuite D (ancestorTitles W) s) \<in> set (map s_id (testSuites W)))"
    and "t \<in> set (testsOf s)"
  shows "case t_suiteId (newTest D (ancestorTitles W) t) of None \<Rightarrow> True
         | Some i \<Rightarrow> i \<in> set (map s_id (testSuites W))"
proof (cases "ancestorTitles W = []")
  case True
  then show ?thesis
    by (simp add: newTest_def Let_def)
next
  case False
  with assms have "orEmpty (test_file t) = orEmpty (suite_file s)"
    and "s_id (newTestSuite D (ancestorTitles W) s) \<in> set (map s_id (testSuites W))"
    by (simp_all add: ownTestsShareFile_def list_all_iff)
  with False show ?thesis
    by (simp add: newTest_def newTestSuite_def Let_def)
qed

lemma walk_invariant:
  "listTestsAndTestSuites D s W = (out, W') \<Longrightarrow> walkInv W \<Longrightarrow>
     (\<forall>x \<in> set (subSuites (ancestorTitles W) s). ownTestsShareFile (snd x)) \<Longrightarrow>
     ancestorTitles W = [] \<or>
       (ownTestsShareFile s \<and>
        s_id (newTestSuite D (ancestorTitles W) s) \<in> set (map s_id (testSuites W))) \<Longrightarrow>
     walkInv W' \<and> set (map s_id (testSuites W)) \<subseteq> set (map s_id (testSuites W'))"
  "listChildSuites D cs W = (out, W') \<Longrightarrow> walkInv W \<Longrightarrow>
     (\<forall>x \<in> set (subSuites_list (ancestorTitles W) cs). ownTestsShareFile (snd x)) \<Longrightarrow>
     walkInv W' \<and> set (map s_id (testSuites W)) \<subseteq> set (map s_id (testSuites W'))"
proof (induction D s W and D cs W arbitrary: out W' and out W'
    rule: listTestsAndTestSuites_listChildSuites.induct)
  case (1 D ttl fl ts ss W)
  show ?case
  proof (cases ss)
    case None
    with "1.prems" show ?thesis by simp
  next
    case (Some children)
    obtain o1 W1 where C: "listChildSuites D children W = (o1, W1)"
      by (cases "listChildSuites D children W") auto
    from "1.prems"(3) Some have below:
      "\<forall>x \<in> set (subSuites_list (ancestorTitles W) children). ownTestsShareFile (snd x)"
      by simp
    from "1.IH" [OF Some C "1.prems"(2) below]
    have I1: "walkInv W1" and sub1: "set (map s_id (testSuites W)) \<subseteq> set (map s_id (testSuites W1))"
      by simp_all
    show ?thesis
    proof (cases o1)
      case (Thrown e)
      with "1.prems"(1) Some C have "W' = W1" by simp
      with I1 sub1 show ?thesis by simp
    next
      case Returned
      from walk_returned(2) [OF C [unfolded Returned]]
      have st: "ancestorTitles W1 = ancestorTitles W" by simp
      show ?thesis
      proof (cases ts)
        case None
        with "1.prems"(1) Some C Returned have "W' = W1" by simp
        with I1 sub1 show ?thesis by simp
      next
        case (Some m) note ts = this
        with "1.prems"(1) \<open>ss = Some children\<close> C Returned
        have W': "W' = foldl (pushTest D) W1 m" by simp
        have "\<forall>t \<in> set m. case t_suiteId (newTest D (ancestorTitles W1) t) of None \<Rightarrow> True
            | Some i \<Rightarrow> i \<in> set (map s_id (testSuites W1))"
        proof
          fix t assume "t \<in> set m"
          then have t: "t \<in> set (testsOf (MochaSuite ttl fl ts ss))"
            by (simp add: testsOf_def ts)
          from own_tests_link [OF "1.prems"(4) t]
          show "case t_suiteId (newTest D (ancestorTitles W1) t) of None \<Rightarrow> True
            | Some i \<Rightarrow> i \<in> set (map s_id (testSuites W1))"
            using sub1 by (auto simp: st split: option.splits)
        qed
        from walkInv_pushTests [OF I1 this] sub1 show ?thesis
          by (simp add: W')
      qed
    qed
  qed
next
  case (2 D W)
  then show ?case by simp
next
  case (3 D c rest W)
  let ?W2 = "pushTestSuite D W c"
  obtain o3 W3 where A: "listTestsAndTestSuites D c ?W2 = (o3, W3)"
    by (cases "listTestsAndTestSuites D c ?W2") auto
  have I2: "walkInv ?W2"
    using "3.prems"(2) by (rule walkInv_pushTestSuite)
  from "3.prems"(3) have own: "ownTestsShareFile c"
    and below: "\<forall>x \<in> set (subSuites (ancestorTitles ?W2) c). ownTestsShareFile (snd x)"
    and later: "\<forall>x \<in> set (subSuites_list (ancestorTitles W) rest). ownTestsShareFile (snd x)"
    by simp_all
  have entry: "ancestorTitles ?W2 = [] \<or>
      (ownTestsShareFile c \<and>
       s_id (newTestSuite D (ancestorTitles ?W2) c) \<in> set (map s_id (testSuites ?W2)))"
    using own by (simp add: nodeOfSuite_def)
  from "3.IH"(1) [OF A I2 below entry]
  have I3: "walkInv W3" and sub3: "set (map s_id (testSuites ?W2)) \<subseteq> set (map s_id (testSuites W3))"
    by simp_all
  then have sub: "set (map s_id (testSuites W)) \<subseteq> set (map s_id (testSuites W3))"
    by auto
  show ?case
  proof (cases o3)
    case (Thrown e)
    with "3.prems"(1) A have "W' = W3" by simp
    with I3 sub show ?thesis by simp
  next
    case Returned
    let ?W4 = "W3\<lparr>ancestorTitles := butlast (ancestorTitles W3)\<rparr>"
    from "3.prems"(1) A Returned have B: "listChildSuites D rest ?W4 = (out, W')"
      by simp
    from walk_returned(1) [OF A [unfolded Returned]]
    have st: "ancestorTitles ?W4 = ancestorTitles W" by simp
    have I4: "walkInv ?W4"
      using I3 by (simp add: walkInv_def)
    from later st have later4: "\<forall>x \<in> set (subSuites_list (ancestorTitles ?W4) rest). ownTestsShareFile (snd x)"
      by simp
    from "3.IH"(2) [OF A [unfolded Returned, symmetric] refl B I4 later4] sub show ?thesis
      by auto
  qed
qed

text \<open>
  Claim C5, as amended. In a walk over a tree in which every suite below the root has
  the file of each of its own tests, whether the walk returns or throws: every test
  pushed with a non-null \<^verbatim>\<open>suiteID\<close> is pushed after a suite whose id is that
  \<^verbatim>\<open>suiteID\<close>; the history of the pushes is the history of \<^verbatim>\<open>tests\<close> and
  \<^verbatim>\<open>testSuites\<close>, so in the two arrays every non-null \<^verbatim>\<open>suiteID\<close> is the id of a suite.
\<close>

theorem suite_links_resolve:
  assumes "filesAgree rootSuite"
  shows "linksEarlier [] (emitted (snd (discover D rootSuite))) \<and>
         tests (snd (discover D rootSuite)) = emittedTests (emitted (snd (discover D rootSuite))) \<and>
         testSuites (snd (discover D rootSuite)) = emittedSuites (emitted (snd (discover D rootSuite))) \<and>
         linksResolve (snd (discover D rootSuite))"
proof -
  obtain out W where d: "listTestsAndTestSuites D rootSuite emptyWalk = (out, W)"
    by (cases "listTestsAndTestSuites D rootSuite (emptyWalk :: 'a walk)") auto
  have "walkInv (emptyWalk :: 'a walk)"
    by (simp add: walkInv_def emptyWalk_def)
  moreover from assms
  have "\<forall>x \<in> set (subSuites (ancestorTitles (emptyWalk :: 'a walk)) rootSuite). ownTestsShareFile (snd x)"
    by (simp add: filesAgree_def list_all_iff emptyWalk_def)
  moreover have "ancestorTitles (emptyWalk :: 'a walk) = []"
    by (simp add: emptyWalk_def)
  ultimately have "walkInv W"
    using walk_invariant(1) [OF d] by blast
  with walkInv_linksResolve [of W] d show ?thesis
    by (simp add: discover_def walkInv_def)
qed

theorem suite_links_resolve_witness:
  "filesAgree exampleRoot \<and>
   map t_suiteId (tests (snd (discover (exampleDeps [] exampleRoot) exampleRoot))) =
     [Some (''r'' @ NL @ ''a.js (S)''), Some (''r'' @ NL @ ''a.js (S)''), None] \<and>
   map s_id (testSuites (snd (discover (exampleDeps [] exampleRoot) exampleRoot))) =
     [''r'' @ NL @ ''a.js (S)''] \<and>
   linksEarlier [] (emitted (snd (discover (exampleDeps [] exampleRoot) exampleRoot))) \<and>
   linksResolve (snd (discover (exampleDeps [] exampleRoot) exampleRoot))"
proof -
  have f: "filesAgree exampleRoot"
    by (simp add: filesAgree_def ownTestsShareFile_def testsOf_def example_defs orEmpty_def)
  have v: "map t_suiteId (tests (snd (discover (exampleDeps [] exampleRoot) exampleRoot))) =
     [Some (''r'' @ NL @ ''a.js (S)''), Some (''r'' @ NL @ ''a.js (S)''), None] \<and>
   map s_id (testSuites (snd (discover (exampleDeps [] exampleRoot) exampleRoot))) =
     [''r'' @ NL @ ''a.js (S)'']"
    by (simp add: example_defs walk_defs emptyWalk_def)
  from suite_links_resolve [OF f, where D = "exampleDeps [] exampleRoot"] f v show ?thesis
    by blast
qed

text \<open>
  The claim as stated fails: the walk builds the test's \<^verbatim>\<open>suiteID\<close> from the test's own
  file and the suite's id from the suite's file. Here the files differ, so do the two
  strings given to the digest, and the test's \<^verbatim>\<open>suiteID\<close> is the id of no suite.
\<close>

theorem suite_link_dangling_counterexample:
  "fst (discover (exampleDeps [] exampleRoot) mixedRoot) = Returned \<and>
   map t_suiteId (tests (snd (discover (exampleDeps [] exampleRoot) mixedRoot))) =
     [Some (''r'' @ NL @ ''b.js (S)'')] \<and>
   map s_id (testSuites (snd (discover (exampleDeps [] exampleRoot) mixedRoot))) =
     [''r'' @ NL @ ''a.js (S)''] \<and>
   \<not> linksResolve (snd (discover (exampleDeps [] exampleRoot) mixedRoot)) \<and>
   chainInput (exampleDeps [] exampleRoot) (map (getIdentifier (exampleDeps [] exampleRoot) ''b.js'') [''S'']) \<noteq>
   chainInput (exampleDeps [] exampleRoot) (map (getIdentifier (exampleDeps [] exampleRoot) ''a.js'') [''S''])"
  by (simp add: example_defs walk_defs emptyWalk_def linksResolve_def)

section \<open>Identifiers\<close>

lemma testInput_chain:
  "testInput D ids name = chainInput D ((if ids = [] then [[]] else ids) @ [name])"
  by (simp add: testInput_def chainInput_def join_snoc)

text \<open>
  Claim C6, as amended. In the output of a walk that returns, the id of every suite is
  the digest of the scope id, a newline and the qualified names of its ancestors and
  itself joined by newlines. The id of a test below a suite is the same digest over the
  qualified names of its ancestors and its own; the id of a test of the root suite is
  the digest of the scope id, two newlines and its qualified name, which is the chain
  with an empty name in front. The identifiers are values of functions of the scope id,
  the files and the titles, so equal arguments give equal identifiers.
\<close>

theorem identifiers_are_digests_of_chains:
  assumes "fst (discover D rootSuite) = Returned"
  shows "map s_id (testSuites (snd (discover D rootSuite))) =
           map (\<lambda>x. md5hex D (REPO_ID D @ NL @
                  join NL (map (getIdentifier D (orEmpty (suite_file (snd x))))
                    (fst x @ [suite_title (snd x)]))))
             (subSuites [] rootSuite) \<and>
         map t_id (tests (snd (discover D rootSuite))) =
           map (\<lambda>x. md5hex D (REPO_ID D @ NL @
                  join NL ((if fst x = [] then [[]]
                            else map (getIdentifier D (orEmpty (test_file (snd x)))) (fst x)) @
                           [getIdentifier D (orEmpty (test_file (snd x))) (test_title (snd x))])))
             (walkTests [] rootSuite)"
proof -
  let ?W = "snd (discover D rootSuite)"
  from assms have "listTestsAndTestSuites D rootSuite emptyWalk = (Returned, ?W)"
    unfolding discover_def by (metis prod.collapse)
  from walk_returned(1) [OF this]
  have S: "testSuites ?W = map (nodeOfSuite D) (subSuites [] rootSuite)"
    and T: "tests ?W = map (nodeOfTest D) (walkTests [] rootSuite)"
    by (simp_all add: emptyWalk_def)
  have s: "s_id (nodeOfSuite D x) = md5hex D (REPO_ID D @ NL @
      join NL (map (getIdentifier D (orEmpty (suite_file (snd x)))) (fst x @ [suite_title (snd x)])))" for x
    by (simp add: nodeOfSuite_def newTestSuite_def chainInput_def Let_def)
  have t: "t_id (nodeOfTest D x) = md5hex D (REPO_ID D @ NL @
      join NL ((if fst x = [] then [[]]
                else map (getIdentifier D (orEmpty (test_file (snd x)))) (fst x)) @
               [getIdentifier D (orEmpty (test_file (snd x))) (test_title (snd x))]))" for x
    using testInput_chain [of D "map (getIdentifier D (orEmpty (test_file (snd x)))) (fst x)"
        "getIdentifier D (orEmpty (test_file (snd x))) (test_title (snd x))"]
    by (simp add: nodeOfTest_def newTest_def chainInput_def Let_def)
  show ?thesis
    by (simp add: S T s t)
qed

theorem identifiers_are_digests_of_chains_witness:
  "fst (discover (exampleDeps [] exampleRoot) exampleRoot) = Returned \<and>
   map s_id (testSuites (snd (discover (exampleDeps [] exampleRoot) exampleRoot))) =
     [''r'' @ NL @ join NL [''a.js (S)'']] \<and>
   map t_id (tests (snd (discover (exampleDeps [] exampleRoot) exampleRoot))) =
     [''r'' @ NL @ join NL [''a.js (S)'', ''a.js (t)''],
      ''r'' @ NL @ join NL [''a.js (S)'', ''a.js (u)''],
      ''r'' @ NL @ join NL [[], ''b.js (h)'']]"
proof -
  have r: "fst (discover (exampleDeps [] exampleRoot) exampleRoot) = Returned"
    by (simp add: example_defs walk_defs)
  from identifiers_are_digests_of_chains [OF r] r show ?thesis
    by (simp add: example_defs orEmpty_def)
qed

text \<open>
  The claim as stated fails for a test of the root suite: line 222 joins the empty list
  of suite identifiers and appends a newline and the test's name, so the string given
  to the digest has two newlines after the scope id, and is not the string the claim
  names.
\<close>

theorem root_test_identifier_counterexample:
  "newTest (exampleDeps [] exampleRoot) [] (MochaTest ''h'' (Some ''b.js'')) \<in>
     set (tests (snd (discover (exampleDeps [] exampleRoot) exampleRoot))) \<and>
   t_id (newTest (exampleDeps [] exampleRoot) [] (MochaTest ''h'' (Some ''b.js''))) \<noteq>
     md5hex (exampleDeps [] exampleRoot)
       (REPO_ID (exampleDeps [] exampleRoot) @ NL @
        join NL [getIdentifier (exampleDeps [] exampleRoot) ''b.js'' ''h'']) \<and>
   testInput (exampleDeps [] exampleRoot) [] (getIdentifier (exampleDeps [] exampleRoot) ''b.js'' ''h'') \<noteq>
     chainInput (exampleDeps [] exampleRoot) [getIdentifier (exampleDeps [] exampleRoot) ''b.js'' ''h'']"
  by (simp add: example_defs walk_defs)









text \<open>
  The claim as stated fails where a title contains a newline: for qualified names made
  of a prefix, the title and a suffix, exchanging the ancestor titles \<open>a\<close> and
  \<open>a @ q @ NL @ p @ a\<close> leaves the string given to the digest as it is, so the
  identifier is the same whatever the digest.
\<close>

lemma swap_keeps_digest_input:
  assumes "getIdentifier D f = (\<lambda>n. p @ n @ q)"
  shows "chainInput D (map (getIdentifier D f) [a, a @ q @ NL @ p @ a]) =
         chainInput D (map (getIdentifier D f) [a @ q @ NL @ p @ a, a])"
  by (simp add: assms chainInput_def)


end
